theory Spec2Isabelle
  imports Main
begin

section \<open>The multi-model mixin of yellowbrick.base\<close>

text \<open>
  The class \<^verbatim>\<open>MultiModelMixin\<close> of \<^verbatim>\<open>yellowbrick/base.py\<close> keeps a collection of
  estimators and a collection of display names, allocates one subplot per estimator and
  yields the cross-validated predictions of each estimator from a generator. Its three
  methods are embedded below. The functions it calls that live elsewhere
  (\<^verbatim>\<open>isestimator\<close> and \<^verbatim>\<open>get_model_name\<close> of \<^verbatim>\<open>yellowbrick.utils\<close>,
  \<^verbatim>\<open>cross_val_predict\<close> of scikit-learn, \<^verbatim>\<open>pyplot.subplots\<close> of matplotlib) are
  parameters of the embedding; each of them may raise.
\<close>

subsection \<open>Python values and exceptions\<close>

text \<open>
  The argument \<^verbatim>\<open>models\<close> is dynamically typed: an estimator object, a list of
  them, or anything else a caller passes. \<open>Obj c as\<close> is an instance of the class named
  \<open>c\<close> that exposes the attributes \<open>as\<close>; it is neither iterable nor sized.
\<close>

datatype pyobj =
    PyNone
  | PyStr string
  | PyList "pyobj list"
  | Obj string "string list"

datatype error =
    TypeError
  | ValueError
  | Raised string

text \<open>\<^verbatim>\<open>iter(v)\<close>: a list gives its elements, a string its characters as strings of
  length one, everything else raises \<^verbatim>\<open>TypeError\<close>.\<close>

fun iter_py :: "pyobj \<Rightarrow> error + pyobj list" where
  "iter_py (PyList xs) = Inr xs"
| "iter_py (PyStr s) = Inr (map (\<lambda>c. PyStr [c]) s)"
| "iter_py PyNone = Inl TypeError"
| "iter_py (Obj c as) = Inl TypeError"

text \<open>\<^verbatim>\<open>len(v)\<close>.\<close>

fun len_py :: "pyobj \<Rightarrow> error + nat" where
  "len_py (PyList xs) = Inr (length xs)"
| "len_py (PyStr s) = Inr (length s)"
| "len_py PyNone = Inl TypeError"
| "len_py (Obj c as) = Inl TypeError"

text \<open>\<^verbatim>\<open>list(map(f, xs))\<close>: \<open>f\<close> is applied from left to right and the first
  exception it raises ends the traversal.\<close>

fun map_py :: "('a \<Rightarrow> error + 'b) \<Rightarrow> 'a list \<Rightarrow> error + 'b list" where
  "map_py f [] = Inr []"
| "map_py f (x # xs) =
     (case f x of
        Inl e \<Rightarrow> Inl e
      | Inr v \<Rightarrow> (case map_py f xs of Inl e \<Rightarrow> Inl e | Inr vs \<Rightarrow> Inr (v # vs)))"

subsection \<open>The adapter object and its constructor\<close>

record adapter =
  models :: pyobj
  names :: pyobj

text \<open>
  \<^verbatim>\<open>
  def __init__(self, models, **kwargs):
      if isestimator(models):
          models = [models]
      self.models = models
      self.names  = kwargs.pop('names', list(map(get_model_name, models)))
  \<close>
  The keyword arguments are an association list. The second argument of \<^verbatim>\<open>pop\<close> is
  an ordinary argument expression: it is evaluated before \<^verbatim>\<open>pop\<close> looks the key up.
  An exception leaves no object behind, so the result is the exception alone.
\<close>

definition init ::
  "(pyobj \<Rightarrow> error + bool) \<Rightarrow> (pyobj \<Rightarrow> error + string) \<Rightarrow>
     pyobj \<Rightarrow> (string \<times> pyobj) list \<Rightarrow> error + adapter" where
  "init isestimator get_model_name arg kwargs =
     (case isestimator arg of
        Inl e \<Rightarrow> Inl e
      | Inr single \<Rightarrow>
          (let ms = (if single then PyList [arg] else arg) in
           case iter_py ms of
             Inl e \<Rightarrow> Inl e
           | Inr elems \<Rightarrow>
               (case map_py get_model_name elems of
                  Inl e \<Rightarrow> Inl e
                | Inr derived \<Rightarrow>
                    Inr \<lparr>models = ms,
                         names = (case map_of kwargs ''names'' of
                                    Some v \<Rightarrow> v
                                  | None \<Rightarrow> PyList (map PyStr derived))\<rparr>)))"

subsection \<open>Subplots\<close>

text \<open>
  \<^verbatim>\<open>
  def generate_subplots(self):
      _, axes = plt.subplots(len(self.models), sharex=True, sharey=True)
      return axes
  \<close>
  \<^verbatim>\<open>plt.subplots\<close> works on the global state \<open>'g\<close> of pyplot and returns a figure
  and the axes. Every method takes the adapter object and returns it, so that what a
  method does to the object is part of its result.
\<close>

type_synonym ('g, 'f, 'ax) subplots =
  "nat \<Rightarrow> bool \<Rightarrow> bool \<Rightarrow> 'g \<Rightarrow> (error + 'f \<times> 'ax) \<times> 'g"

definition generate_subplots ::
  "('g, 'f, 'ax) subplots \<Rightarrow> adapter \<Rightarrow> 'g \<Rightarrow> (error + 'ax) \<times> adapter \<times> 'g" where
  "generate_subplots subplots self g =
     (case len_py (models self) of
        Inl e \<Rightarrow> (Inl e, self, g)
      | Inr n \<Rightarrow>
          (case subplots n True True g of
             (Inl e, g') \<Rightarrow> (Inl e, self, g')
           | (Inr (fig, axs), g') \<Rightarrow> (Inr axs, self, g')))"

text \<open>
  The provider the source passes is \<^verbatim>\<open>matplotlib.pyplot.subplots\<close>, called with
  \<^verbatim>\<open>nrows\<close>, \<^verbatim>\<open>sharex\<close> and \<^verbatim>\<open>sharey\<close> only. By matplotlib's documentation
  it opens a new figure, then lays out a grid of \<^verbatim>\<open>nrows\<close> by one axes; the number
  of rows must be positive (\<^verbatim>\<open>ValueError\<close> otherwise, the figure staying open); and
  since \<^verbatim>\<open>squeeze\<close> is left at its default \<^verbatim>\<open>True\<close>, a grid of one axes is
  returned as that axes object itself and a grid of several as a one-dimensional array.
  The global state is the number of figures opened so far.
\<close>

record axes =
  fig_num :: nat
  row :: nat
  shared_x :: bool
  shared_y :: bool

datatype axes_ret =
    Scalar axes
  | Array "axes list"

definition plt_subplots :: "(nat, nat, axes_ret) subplots" where
  "plt_subplots nrows sharex sharey figs =
     (let fig = Suc figs in
      if nrows = 0 then (Inl ValueError, fig)
      else
        (let axs = map (\<lambda>r. \<lparr>fig_num = fig, row = r, shared_x = sharex, shared_y = sharey\<rparr>)
                       [0..<nrows]
         in (Inr (fig, if nrows = 1 then Scalar (axs ! 0) else Array axs), fig)))"

subsection \<open>The prediction generator\<close>

text \<open>
  \<^verbatim>\<open>
  def predict(self, X, y):
      for model in self.models:
          yield cvp(model, X, y, cv=12)
  \<close>
  Calling a generator function runs none of its body: it returns a generator object
  holding the arguments. Each \<^verbatim>\<open>next\<close> runs the body up to the following
  \<^verbatim>\<open>yield\<close>. The first one evaluates \<^verbatim>\<open>self.models\<close> and starts iterating over
  it; an exception that leaves the body, or the end of the loop, closes the generator.
  The cross-validation routine works on the state \<open>'w\<close> of the world outside the
  adapter (random number generators, worker pools). It fits clones of the estimator it
  is given, so it receives the estimator by value.
\<close>

datatype ('x, 'y) generator =
    Created 'x 'y
  | Suspended 'x 'y "pyobj list"
  | Closed

datatype 'p outcome =
    Yield 'p
  | StopIteration
  | Raise error

type_synonym ('x, 'y, 'p, 'w) cvp =
  "pyobj \<Rightarrow> 'x \<Rightarrow> 'y \<Rightarrow> nat \<Rightarrow> 'w \<Rightarrow> (error + 'p) \<times> 'w"

definition predict :: "'x \<Rightarrow> 'y \<Rightarrow> adapter \<Rightarrow> ('x, 'y) generator \<times> adapter" where
  "predict X y self = (Created X y, self)"

text \<open>The loop, entered with the elements still to be visited.\<close>

fun resume ::
  "('x, 'y, 'p, 'w) cvp \<Rightarrow> 'x \<Rightarrow> 'y \<Rightarrow> pyobj list \<Rightarrow> 'w \<Rightarrow>
     ('p outcome \<times> ('x, 'y) generator) \<times> 'w" where
  "resume cvp X y [] w = ((StopIteration, Closed), w)"
| "resume cvp X y (model # rest) w =
     (case cvp model X y 12 w of
        (Inl e, w') \<Rightarrow> ((Raise e, Closed), w')
      | (Inr p, w') \<Rightarrow> ((Yield p, Suspended X y rest), w'))"

fun next_py ::
  "('x, 'y, 'p, 'w) cvp \<Rightarrow> ('x, 'y) generator \<Rightarrow> adapter \<Rightarrow> 'w \<Rightarrow>
     ('p outcome \<times> ('x, 'y) generator) \<times> adapter \<times> 'w" where
  "next_py cvp (Created X y) self w =
     (case iter_py (models self) of
        Inl e \<Rightarrow> ((Raise e, Closed), self, w)
      | Inr ms \<Rightarrow> (case resume cvp X y ms w of (r, w') \<Rightarrow> (r, self, w')))"
| "next_py cvp (Suspended X y ms) self w =
     (case resume cvp X y ms w of (r, w') \<Rightarrow> (r, self, w'))"
| "next_py cvp Closed self w = ((StopIteration, Closed), self, w)"

text \<open>
  The number of elements a generator can still yield: it bounds the number of
  \<^verbatim>\<open>next\<close> calls that yield.
\<close>

fun pending :: "('x, 'y) generator \<Rightarrow> adapter \<Rightarrow> nat" where
  "pending (Created X y) self =
     Suc (case iter_py (models self) of Inl e \<Rightarrow> 0 | Inr ms \<Rightarrow> length ms)"
| "pending (Suspended X y ms) self = length ms"
| "pending Closed self = 0"

lemma next_py_self: "next_py cvp g self w = (r, self', w') \<Longrightarrow> self' = self"
  by (cases g) (auto split: sum.splits prod.splits)

lemma resume_Yield:
  "resume cvp X y ms w = ((Yield p, g'), w') \<Longrightarrow>
     \<exists>model rest. ms = model # rest \<and> g' = Suspended X y rest"
  by (cases ms) (auto split: sum.splits prod.splits)

lemma next_py_pending:
  "next_py cvp g self w = ((Yield p, g'), self', w') \<Longrightarrow> pending g' self' < pending g self"
  by (cases g) (auto split: sum.splits prod.splits dest!: resume_Yield)

text \<open>
  A caller that exhausts the generator, as \<^verbatim>\<open>for p in self.predict(X, y)\<close> does:
  \<^verbatim>\<open>next\<close> is called until it signals the end or raises. The result holds the
  predictions the caller has received, in the order received, and the exception that
  ended the loop, if one did.
\<close>

function consume ::
  "('x, 'y, 'p, 'w) cvp \<Rightarrow> ('x, 'y) generator \<Rightarrow> adapter \<Rightarrow> 'w \<Rightarrow>
     ('p list \<times> error option) \<times> adapter \<times> 'w" where
  "consume cvp g self w =
     (case next_py cvp g self w of
        ((Yield p, g'), self', w') \<Rightarrow>
          (case consume cvp g' self' w' of
             ((ps, raised), rest) \<Rightarrow> ((p # ps, raised), rest))
      | ((StopIteration, g'), self', w') \<Rightarrow> (([], None), self', w')
      | ((Raise e, g'), self', w') \<Rightarrow> (([], Some e), self', w'))"
  by pat_completeness auto
termination
  by (relation "measure (\<lambda>(cvp, g, self, w). pending g self)")
     (auto dest: next_py_pending [OF sym])

text \<open>
  The state of the world after the routine has run on the given models, one after the
  other: the state in which the following call starts.
\<close>

definition world_after ::
  "('x, 'y, 'p, 'w) cvp \<Rightarrow> 'x \<Rightarrow> 'y \<Rightarrow> pyobj list \<Rightarrow> 'w \<Rightarrow> 'w" where
  "world_after cvp X y ms w = fold (\<lambda>model v. snd (cvp model X y 12 v)) ms w"

text \<open>
  An observer of the routine: it behaves as the routine it wraps and records, in the
  order of the calls, the estimator and the fold count of every call.
\<close>

fun traced ::
  "('x, 'y, 'p, 'w) cvp \<Rightarrow> ('x, 'y, 'p, (pyobj \<times> nat) list \<times> 'w) cvp" where
  "traced cvp model X y cv (calls, w) =
     (case cvp model X y cv w of (r, w') \<Rightarrow> (r, calls @ [(model, cv)], w'))"

subsection \<open>Instances of the collaborators\<close>

text \<open>
  Modelled from the spec: \<^verbatim>\<open>yellowbrick/utils.py\<close>, which defines
  \<^verbatim>\<open>isestimator\<close> and \<^verbatim>\<open>get_model_name\<close>, is not among the sources. The
  capability check is the one the specification describes: the object exposes both
  \<^verbatim>\<open>fit\<close> and \<^verbatim>\<open>predict\<close>. The name of a model is its class identifier; an
  object that is not an estimator has no model name and the extraction raises
  (the type mismatch error of the specification). The theorems below hold for every
  pair of helpers; these two run the constructor on concrete inputs.
\<close>

fun duck_isestimator :: "pyobj \<Rightarrow> error + bool" where
  "duck_isestimator (Obj c as) = Inr (''fit'' \<in> set as \<and> ''predict'' \<in> set as)"
| "duck_isestimator v = Inr False"

fun estimator_name :: "pyobj \<Rightarrow> error + string" where
  "estimator_name (Obj c as) =
     (if ''fit'' \<in> set as \<and> ''predict'' \<in> set as then Inr c
      else Inl (Raised ''YellowbrickTypeError''))"
| "estimator_name v = Inl (Raised ''YellowbrickTypeError'')"

text \<open>
  A cross-validation routine for concrete runs: it predicts a number computed from the
  class name and the fold count, fails on estimators of the class \<^verbatim>\<open>Broken\<close>, and
  counts its calls in the world.
\<close>

fun cv_stub :: "(unit, unit, nat, nat) cvp" where
  "cv_stub (Obj c as) X y cv w =
     (if c = ''Broken'' then (Inl (Raised ''fit failed''), Suc w)
      else (Inr (length c * cv), Suc w))"
| "cv_stub v X y cv w = (Inl TypeError, Suc w)"

text \<open>\<^verbatim>\<open>type(v).__name__\<close>.\<close>

fun class_of :: "pyobj \<Rightarrow> string" where
  "class_of (Obj c as) = c"
| "class_of (PyList xs) = ''list''"
| "class_of (PyStr s) = ''str''"
| "class_of PyNone = ''NoneType''"

definition ridge :: pyobj where
  "ridge = Obj ''Ridge'' [''fit'', ''predict'']"

definition lasso :: pyobj where
  "lasso = Obj ''Lasso'' [''fit'', ''predict'']"

definition svr :: pyobj where
  "svr = Obj ''SVR'' [''fit'', ''predict'']"

definition broken :: pyobj where
  "broken = Obj ''Broken'' [''fit'', ''predict'']"

definition ridge_and_svr :: adapter where
  "ridge_and_svr =
     \<lparr>models = PyList [ridge, svr], names = PyList [PyStr ''Ridge'', PyStr ''SVR'']\<rparr>"

definition ridge_alone :: adapter where
  "ridge_alone = \<lparr>models = PyList [ridge], names = PyList [PyStr ''Ridge'']\<rparr>"

definition ridge_then_broken :: adapter where
  "ridge_then_broken =
     \<lparr>models = PyList [ridge, broken], names = PyList [PyStr ''Ridge'', PyStr ''Broken'']\<rparr>"

section \<open>Properties\<close>

subsection \<open>Exhausting the generator\<close>

lemma consume_Closed: "consume cvp Closed self w = (([], None), self, w)"
  by simp

lemma consume_Suspended_Nil: "consume cvp (Suspended X y []) self w = (([], None), self, w)"
  by simp

lemma consume_Suspended_Cons:
  "consume cvp (Suspended X y (model # rest)) self w =
     (case cvp model X y 12 w of
        (Inl e, w') \<Rightarrow> (([], Some e), self, w')
      | (Inr p, w') \<Rightarrow>
          (case consume cvp (Suspended X y rest) self w' of
             ((ps, raised), final) \<Rightarrow> ((p # ps, raised), final)))"
  by (subst consume.simps) (simp split: prod.splits sum.splits)

lemma consume_Created:
  "consume cvp (Created X y) self w =
     (case iter_py (models self) of
        Inl e \<Rightarrow> (([], Some e), self, w)
      | Inr ms \<Rightarrow> consume cvp (Suspended X y ms) self w)"
  apply (subst consume.simps)
  apply (subst (2) consume.simps)
  apply (simp split: prod.splits sum.splits)
  done

declare consume.simps [simp del]

lemma world_after_Nil [simp]: "world_after cvp X y [] w = w"
  by (simp add: world_after_def)

lemma world_after_Cons [simp]:
  "world_after cvp X y (model # ms) w = world_after cvp X y ms (snd (cvp model X y 12 w))"
  by (simp add: world_after_def)

lemma world_after_append:
  "world_after cvp X y (ms @ ns) w = world_after cvp X y ns (world_after cvp X y ms w)"
  by (simp add: world_after_def)

lemma consume_prefix:
  assumes "\<forall>i<length pre. \<exists>p. fst (cvp (pre ! i) X y 12 (world_after cvp X y (take i pre) w)) = Inr p"
  shows "\<exists>qs. length qs = length pre
           \<and> (\<forall>i<length pre.
                 fst (cvp (pre ! i) X y 12 (world_after cvp X y (take i pre) w)) = Inr (qs ! i))
           \<and> consume cvp (Suspended X y (pre @ rest)) self w =
               (case consume cvp (Suspended X y rest) self (world_after cvp X y pre w) of
                  ((ps, raised), final) \<Rightarrow> ((qs @ ps, raised), final))"
  using assms
proof (induction pre arbitrary: w)
  case Nil
  show ?case by (simp split: prod.splits)
next
  case (Cons model pre)
  from Cons.prems have "\<exists>p. fst (cvp model X y 12 w) = Inr p"
    by (auto dest: spec [of _ 0])
  then obtain p w1 where first: "cvp model X y 12 w = (Inr p, w1)"
    by (cases "cvp model X y 12 w") auto
  have "\<forall>i<length pre.
          \<exists>q. fst (cvp (pre ! i) X y 12 (world_after cvp X y (take i pre) w1)) = Inr q"
  proof (intro allI impI)
    fix i assume "i < length pre"
    with Cons.prems first show
      "\<exists>q. fst (cvp (pre ! i) X y 12 (world_after cvp X y (take i pre) w1)) = Inr q"
      by (auto dest!: spec [of _ "Suc i"])
  qed
  from Cons.IH [OF this] obtain qs where
    len: "length qs = length pre" and
    nth: "\<forall>i<length pre.
            fst (cvp (pre ! i) X y 12 (world_after cvp X y (take i pre) w1)) = Inr (qs ! i)" and
    run: "consume cvp (Suspended X y (pre @ rest)) self w1 =
            (case consume cvp (Suspended X y rest) self (world_after cvp X y pre w1) of
               ((ps, raised), final) \<Rightarrow> ((qs @ ps, raised), final))"
    by blast
  have "\<forall>i<length (model # pre).
          fst (cvp ((model # pre) ! i) X y 12
                 (world_after cvp X y (take i (model # pre)) w)) = Inr ((p # qs) ! i)"
  proof (intro allI impI)
    fix i assume "i < length (model # pre)"
    then show "fst (cvp ((model # pre) ! i) X y 12
                 (world_after cvp X y (take i (model # pre)) w)) = Inr ((p # qs) ! i)"
      using first nth by (cases i) auto
  qed
  moreover have "consume cvp (Suspended X y ((model # pre) @ rest)) self w =
      (case consume cvp (Suspended X y rest) self (world_after cvp X y (model # pre) w) of
         ((ps, raised), final) \<Rightarrow> (((p # qs) @ ps, raised), final))"
    using first run by (simp add: consume_Suspended_Cons split: prod.splits)
  ultimately show ?case using len
    by (intro exI [of _ "p # qs"]) simp
qed


lemma consume_traced:
  "consume (traced cvp) (Suspended X y ms) self (calls, w) =
     (case consume (traced cvp) (Suspended X y ms) self ([], w) of
        (out, self', calls', w') \<Rightarrow> (out, self', calls @ calls', w'))"
proof (induction ms arbitrary: calls w)
  case Nil
  show ?case by (simp add: consume_Suspended_Nil)
next
  case (Cons model ms)
  obtain r w1 where step: "cvp model X y 12 w = (r, w1)"
    by (cases "cvp model X y 12 w")
  show ?case
  proof (cases r)
    case (Inl e)
    with step show ?thesis by (simp add: consume_Suspended_Cons)
  next
    case (Inr p)
    with step show ?thesis
      by (simp add: consume_Suspended_Cons Cons.IH [of "calls @ [(model, 12)]" w1]
            Cons.IH [of "[(model, 12)]" w1] split: prod.splits)
  qed
qed

subsection \<open>Construction\<close>

lemma map_py_all_succeed:
  "\<forall>x\<in>set xs. f x = Inr (g x) \<Longrightarrow> map_py f xs = Inr (map g xs)"
  by (induction xs) auto

lemma map_py_one_fails:
  "x \<in> set xs \<Longrightarrow> f x = Inl e \<Longrightarrow> \<exists>e' x'. map_py f xs = Inl e' \<and> x' \<in> set xs \<and> f x' = Inl e'"
proof (induction xs)
  case Nil
  then show ?case by simp
next
  case (Cons a xs)
  show ?case
  proof (cases "f a")
    case (Inl e1)
    then show ?thesis by auto
  next
    case (Inr v)
    with Cons.prems have "x \<in> set xs" by auto
    from Cons.IH [OF this Cons.prems(2)] obtain e' x' where
      "map_py f xs = Inl e'" "x' \<in> set xs" "f x' = Inl e'" by blast
    with Inr show ?thesis by auto
  qed
qed

text \<open>
  C1. Constructing the adapter with a single model \<open>m\<close> that passes the capability
  check (and no other argument, so no \<^verbatim>\<open>names\<close> option) gives the model collection
  \<open>[m]\<close> and the name collection holding the class name of \<open>m\<close> alone.
\<close>

theorem init_single_model:
  assumes "isestimator m = Inr True"
    and "get_model_name m = Inr n"
    and "map_of kwargs ''names'' = None"
  shows "init isestimator get_model_name m kwargs =
           Inr \<lparr>models = PyList [m], names = PyList [PyStr n]\<rparr>"
  using assms by (simp add: init_def)

theorem init_single_model_witness:
  "duck_isestimator ridge = Inr True \<and> estimator_name ridge = Inr ''Ridge''
     \<and> init duck_isestimator estimator_name ridge [] =
         Inr \<lparr>models = PyList [ridge], names = PyList [PyStr ''Ridge'']\<rparr>"
  using init_single_model [of duck_isestimator ridge estimator_name "''Ridge''" "[]"]
  by (simp add: ridge_def)

text \<open>
  C2. Constructing the adapter with a list of models that is not itself an estimator,
  and without the \<^verbatim>\<open>names\<close> option, keeps that list as the model collection and
  derives the names: one per model, the \<open>i\<close>-th being the class name of the \<open>i\<close>-th
  model.
\<close>

theorem init_collection:
  assumes "isestimator (PyList ms) = Inr False"
    and "\<forall>m\<in>set ms. get_model_name m = Inr (class_name m)"
    and "map_of kwargs ''names'' = None"
  shows "init isestimator get_model_name (PyList ms) kwargs =
           Inr \<lparr>models = PyList ms, names = PyList (map (\<lambda>m. PyStr (class_name m)) ms)\<rparr>"
proof -
  from assms(2) have "map_py get_model_name ms = Inr (map class_name ms)"
    by (rule map_py_all_succeed)
  with assms(1,3) show ?thesis
    by (simp add: init_def comp_def)
qed

theorem init_collection_witness:
  "duck_isestimator (PyList [ridge, lasso]) = Inr False
     \<and> estimator_name ridge = Inr (class_of ridge)
     \<and> estimator_name lasso = Inr (class_of lasso)
     \<and> init duck_isestimator estimator_name (PyList [ridge, lasso]) [] =
         Inr \<lparr>models = PyList [ridge, lasso],
              names = PyList [PyStr ''Ridge'', PyStr ''Lasso'']\<rparr>"
  using init_collection [of duck_isestimator "[ridge, lasso]" estimator_name class_of "[]"]
  by (simp add: ridge_def lasso_def)

text \<open>
  C3. When the \<^verbatim>\<open>names\<close> option is supplied, construction ends as it does without
  any option, except that the supplied value replaces the derived names: the value is
  stored as it is, whatever its length, and no error depends on it. In particular a list
  of models whose class names can all be extracted is constructed with the supplied
  names.
\<close>

theorem init_names_verbatim:
  assumes "map_of kwargs ''names'' = Some v"
  shows "init isestimator get_model_name arg kwargs =
           (case init isestimator get_model_name arg [] of
              Inl e \<Rightarrow> Inl e
            | Inr a \<Rightarrow> Inr (a\<lparr>names := v\<rparr>))
         \<and> (isestimator (PyList ms) = Inr False \<longrightarrow>
              map_py get_model_name ms = Inr derived \<longrightarrow>
              init isestimator get_model_name (PyList ms) kwargs =
                Inr \<lparr>models = PyList ms, names = v\<rparr>)"
  using assms by (simp add: init_def Let_def split: sum.splits)

theorem init_names_verbatim_witness:
  "map_of [(''names'', PyList [PyStr ''A'', PyStr ''B''])] ''names'' =
       Some (PyList [PyStr ''A'', PyStr ''B''])
     \<and> duck_isestimator (PyList [ridge, lasso, svr]) = Inr False
     \<and> map_py estimator_name [ridge, lasso, svr] = Inr [''Ridge'', ''Lasso'', ''SVR'']
     \<and> init duck_isestimator estimator_name (PyList [ridge, lasso, svr])
           [(''names'', PyList [PyStr ''A'', PyStr ''B''])] =
         Inr \<lparr>models = PyList [ridge, lasso, svr], names = PyList [PyStr ''A'', PyStr ''B'']\<rparr>"
  using init_names_verbatim
    [of "[(''names'', PyList [PyStr ''A'', PyStr ''B''])]" "PyList [PyStr ''A'', PyStr ''B'']"
        duck_isestimator estimator_name "PyList [ridge, lasso, svr]" "[ridge, lasso, svr]"
        "[''Ridge'', ''Lasso'', ''SVR'']"]
  by (simp add: init_def Let_def ridge_def lasso_def svr_def)

text \<open>
  C6. The constructor accepts an empty list: nothing is raised and the model collection
  of the adapter is empty.
\<close>

theorem init_empty_collection:
  "init duck_isestimator estimator_name (PyList []) [] =
     Inr \<lparr>models = PyList [], names = PyList []\<rparr>
   \<and> len_py (PyList []) = Inr 0"
  by (simp add: init_def Let_def)

text \<open>
  C6, as the code has it. After a construction that succeeds the model collection has a
  length, and that length is zero exactly when the input was not an estimator and was
  itself empty: a single estimator gives a collection of one, a non-empty collection is
  kept, and an empty collection is accepted and stays empty.
\<close>

theorem init_nonempty_unless_empty_input:
  assumes "init isestimator get_model_name arg kwargs = Inr a"
  shows "\<exists>n. len_py (models a) = Inr n
           \<and> (n = 0 \<longleftrightarrow> isestimator arg = Inr False \<and> len_py arg = Inr 0)"
proof (cases "isestimator arg")
  case (Inl e)
  with assms show ?thesis by (simp add: init_def)
next
  case (Inr single)
  show ?thesis
  proof (cases single)
    case True
    with Inr assms show ?thesis
      by (auto simp: init_def split: sum.splits)
  next
    case False
    with Inr assms show ?thesis
      by (cases arg) (auto simp: init_def split: sum.splits)
  qed
qed

theorem init_nonempty_unless_empty_input_witness:
  "init duck_isestimator estimator_name (PyList [ridge, lasso]) [] =
       Inr \<lparr>models = PyList [ridge, lasso], names = PyList [PyStr ''Ridge'', PyStr ''Lasso'']\<rparr>
     \<and> len_py (models \<lparr>models = PyList [ridge, lasso],
                       names = PyList [PyStr ''Ridge'', PyStr ''Lasso'']\<rparr>) = Inr 2"
  using init_nonempty_unless_empty_input
    [of duck_isestimator estimator_name "PyList [ridge, lasso]" "[]"
        "\<lparr>models = PyList [ridge, lasso], names = PyList [PyStr ''Ridge'', PyStr ''Lasso'']\<rparr>"]
  by (simp add: init_def ridge_def lasso_def)

text \<open>
  C10. The default names are derived before the \<^verbatim>\<open>names\<close> option is looked up:
  the class-name extraction runs over every element of the model collection whatever
  the keyword arguments are. So when it fails for some element, construction fails with
  the error of the extraction, also when names were supplied.
\<close>

theorem init_derives_names_eagerly:
  assumes "isestimator arg = Inr single"
    and "iter_py (if single then PyList [arg] else arg) = Inr elems"
    and "m \<in> set elems"
    and "get_model_name m = Inl e"
  shows "\<exists>e' m'. init isestimator get_model_name arg kwargs = Inl e'
           \<and> m' \<in> set elems \<and> get_model_name m' = Inl e'"
proof -
  from map_py_one_fails [of m elems get_model_name e] assms(3,4) obtain e' m' where
    "map_py get_model_name elems = Inl e'" "m' \<in> set elems" "get_model_name m' = Inl e'"
    by blast
  with assms(1,2) show ?thesis
    by (auto simp: init_def)
qed

theorem init_derives_names_eagerly_witness:
  "duck_isestimator (PyList [ridge, PyNone]) = Inr False
     \<and> iter_py (PyList [ridge, PyNone]) = Inr [ridge, PyNone]
     \<and> estimator_name PyNone = Inl (Raised ''YellowbrickTypeError'')
     \<and> init duck_isestimator estimator_name (PyList [ridge, PyNone])
           [(''names'', PyList [PyStr ''A'', PyStr ''B''])] =
         Inl (Raised ''YellowbrickTypeError'')"
  using init_derives_names_eagerly
    [of duck_isestimator "PyList [ridge, PyNone]" False "[ridge, PyNone]" PyNone
        estimator_name "Raised ''YellowbrickTypeError''"
        "[(''names'', PyList [PyStr ''A'', PyStr ''B''])]"]
  by (simp add: init_def ridge_def)

subsection \<open>Predictions\<close>

lemma next_py_computes_one:
  "next_py cvp (Suspended X y (model # rest)) self w =
     (case cvp model X y 12 w of
        (Inl e, w') \<Rightarrow> ((Raise e, Closed), self, w')
      | (Inr p, w') \<Rightarrow> ((Yield p, Suspended X y rest), self, w'))"
  by (simp split: prod.splits sum.splits)

text \<open>
  C4. On an adapter holding the models \<open>ms\<close>, when every call of the routine succeeds,
  a caller that exhausts the generator of \<^verbatim>\<open>predict(X, y)\<close> receives exactly one
  prediction per model and no exception; the \<open>i\<close>-th prediction is what the routine
  returns for the \<open>i\<close>-th model, \<open>X\<close>, \<open>y\<close> and twelve folds, called in the state of
  the world that the calls for the models before it have left.
\<close>

theorem predict_yields_one_result_per_model:
  assumes "models self = PyList ms"
    and "\<forall>i<length ms.
           \<exists>p. fst (cvp (ms ! i) X y 12 (world_after cvp X y (take i ms) w)) = Inr p"
  shows "\<exists>ps. consume cvp (fst (predict X y self)) self w =
                 ((ps, None), self, world_after cvp X y ms w)
           \<and> length ps = length ms
           \<and> (\<forall>i<length ms.
                 fst (cvp (ms ! i) X y 12 (world_after cvp X y (take i ms) w)) = Inr (ps ! i))"
proof -
  from consume_prefix [OF assms(2), of "[]" self] obtain qs where
    len: "length qs = length ms" and
    nth: "\<forall>i<length ms.
            fst (cvp (ms ! i) X y 12 (world_after cvp X y (take i ms) w)) = Inr (qs ! i)" and
    run: "consume cvp (Suspended X y (ms @ [])) self w =
            (case consume cvp (Suspended X y []) self (world_after cvp X y ms w) of
               ((ps, raised), final) \<Rightarrow> ((qs @ ps, raised), final))"
    by blast
  from run assms(1) have
    "consume cvp (fst (predict X y self)) self w = ((qs, None), self, world_after cvp X y ms w)"
    by (simp add: predict_def consume_Created consume_Suspended_Nil)
  with len nth show ?thesis by blast
qed

theorem predict_yields_one_result_per_model_witness:
  "models ridge_and_svr = PyList [ridge, svr]
     \<and> consume cv_stub (fst (predict () () ridge_and_svr)) ridge_and_svr 0 =
         (([60, 36], None), ridge_and_svr, 2)"
proof -
  have ok: "\<forall>i<length [ridge, svr].
              \<exists>p. fst (cv_stub ([ridge, svr] ! i) () () 12
                     (world_after cv_stub () () (take i [ridge, svr]) 0)) = Inr p"
  proof (intro allI impI)
    fix i assume "i < length [ridge, svr]"
    then have "i = 0 \<or> i = 1" by auto
    then show "\<exists>p. fst (cv_stub ([ridge, svr] ! i) () () 12
                     (world_after cv_stub () () (take i [ridge, svr]) 0)) = Inr p"
      by (auto simp: ridge_def svr_def)
  qed
  have ms: "models ridge_and_svr = PyList [ridge, svr]"
    by (simp add: ridge_and_svr_def)
  from predict_yields_one_result_per_model [OF ms ok] obtain ps where
    run: "consume cv_stub (fst (predict () () ridge_and_svr)) ridge_and_svr 0 =
            ((ps, None), ridge_and_svr, world_after cv_stub () () [ridge, svr] 0)" and
    len: "length ps = length [ridge, svr]" and
    nth: "\<forall>i<length [ridge, svr].
            fst (cv_stub ([ridge, svr] ! i) () () 12
                  (world_after cv_stub () () (take i [ridge, svr]) 0)) = Inr (ps ! i)"
    by blast
  from nth have "ps ! 0 = 60" "ps ! 1 = 36"
    by (auto simp: ridge_def svr_def dest: spec [of _ 0] spec [of _ 1])
  with len have "ps = [60, 36]"
    by (cases ps; cases "tl ps") auto
  moreover have "world_after cv_stub () () [ridge, svr] 0 = 2"
    by (simp add: ridge_def svr_def)
  ultimately show ?thesis using run ms by simp
qed

text \<open>
  C7. The first of two models is cross-validated, the routine raises on the second: the
  caller holds the prediction of the first model when the exception reaches it. The
  first \<^verbatim>\<open>next\<close> has returned that prediction; the second raises.
\<close>

theorem predict_delivers_before_error:
  "consume cv_stub (fst (predict () () ridge_then_broken)) ridge_then_broken 0 =
     (([60], Some (Raised ''fit failed'')), ridge_then_broken, 2)
   \<and> next_py cv_stub (fst (predict () () ridge_then_broken)) ridge_then_broken 0 =
       ((Yield 60, Suspended () () [broken]), ridge_then_broken, 1)
   \<and> next_py cv_stub (Suspended () () [broken]) ridge_then_broken 1 =
       ((Raise (Raised ''fit failed''), Closed), ridge_then_broken, 2)"
  by (simp add: predict_def consume_Created consume_Suspended_Cons consume_Suspended_Nil
        ridge_then_broken_def ridge_def broken_def)

text \<open>
  C7, as the code has it. When the routine raises for a model, the models before it
  having succeeded, the caller has received their predictions, one per model and in
  order, and then receives the routine's exception itself. The \<^verbatim>\<open>next\<close> that
  raises closes the generator: the routine is not called for any later model, and a
  further \<^verbatim>\<open>next\<close> signals the end of the sequence.
\<close>

theorem predict_error_after_earlier_results:
  assumes "models self = PyList (pre @ bad # post)"
    and "\<forall>i<length pre.
           \<exists>p. fst (cvp (pre ! i) X y 12 (world_after cvp X y (take i pre) w)) = Inr p"
    and "fst (cvp bad X y 12 (world_after cvp X y pre w)) = Inl e"
  shows "\<exists>ps. consume cvp (fst (predict X y self)) self w =
                 ((ps, Some e), self, world_after cvp X y (pre @ [bad]) w)
           \<and> length ps = length pre
           \<and> (\<forall>i<length pre.
                 fst (cvp (pre ! i) X y 12 (world_after cvp X y (take i pre) w)) = Inr (ps ! i))
           \<and> next_py cvp (Suspended X y (bad # post)) self (world_after cvp X y pre w) =
               ((Raise e, Closed), self, world_after cvp X y (pre @ [bad]) w)
           \<and> next_py cvp Closed self v = ((StopIteration, Closed), self, v)"
proof -
  from consume_prefix [OF assms(2), of "bad # post" self] obtain qs where
    len: "length qs = length pre" and
    nth: "\<forall>i<length pre.
            fst (cvp (pre ! i) X y 12 (world_after cvp X y (take i pre) w)) = Inr (qs ! i)" and
    run: "consume cvp (Suspended X y (pre @ bad # post)) self w =
            (case consume cvp (Suspended X y (bad # post)) self (world_after cvp X y pre w) of
               ((ps, raised), final) \<Rightarrow> ((qs @ ps, raised), final))"
    by blast
  obtain w1 where bad: "cvp bad X y 12 (world_after cvp X y pre w) = (Inl e, w1)"
    using assms(3) by (cases "cvp bad X y 12 (world_after cvp X y pre w)") auto
  then have w1: "world_after cvp X y (pre @ [bad]) w = w1"
    by (simp add: world_after_append)
  from run bad assms(1) have
    "consume cvp (fst (predict X y self)) self w = ((qs, Some e), self, w1)"
    by (simp add: predict_def consume_Created consume_Suspended_Cons)
  moreover from bad have
    "next_py cvp (Suspended X y (bad # post)) self (world_after cvp X y pre w) =
       ((Raise e, Closed), self, w1)"
    by simp
  ultimately show ?thesis using len nth w1 by auto
qed

theorem predict_error_after_earlier_results_witness:
  "models ridge_then_broken = PyList ([ridge] @ broken # [])
     \<and> fst (cv_stub ridge () () 12 0) = Inr 60
     \<and> fst (cv_stub broken () () 12 1) = Inl (Raised ''fit failed'')
     \<and> consume cv_stub (fst (predict () () ridge_then_broken)) ridge_then_broken 0 =
         (([60], Some (Raised ''fit failed'')), ridge_then_broken, 2)"
proof -
  have ms: "models ridge_then_broken = PyList ([ridge] @ broken # [])"
    by (simp add: ridge_then_broken_def)
  have ok: "\<forall>i<length [ridge].
              \<exists>p. fst (cv_stub ([ridge] ! i) () () 12
                     (world_after cv_stub () () (take i [ridge]) 0)) = Inr p"
    by (simp add: ridge_def)
  have bad: "fst (cv_stub broken () () 12 (world_after cv_stub () () [ridge] 0)) =
               Inl (Raised ''fit failed'')"
    by (simp add: ridge_def broken_def)
  from predict_error_after_earlier_results [OF ms ok bad] obtain ps where
    run: "consume cv_stub (fst (predict () () ridge_then_broken)) ridge_then_broken 0 =
            ((ps, Some (Raised ''fit failed'')), ridge_then_broken,
             world_after cv_stub () () ([ridge] @ [broken]) 0)" and
    len: "length ps = length [ridge]" and
    nth: "\<forall>i<length [ridge].
            fst (cv_stub ([ridge] ! i) () () 12
                  (world_after cv_stub () () (take i [ridge]) 0)) = Inr (ps ! i)"
    by blast
  from nth have "ps ! 0 = 60"
    by (simp add: ridge_def)
  with len have "ps = [60]"
    by (cases ps) auto
  with run ms show ?thesis
    by (simp add: ridge_def broken_def)
qed

subsection \<open>The adapter is not written to\<close>

lemma consume_Suspended_self: "fst (snd (consume cvp (Suspended X y ms) self w)) = self"
proof (induction ms arbitrary: w)
  case Nil
  show ?case by (simp add: consume_Suspended_Nil)
next
  case (Cons model ms)
  obtain r w1 where step: "cvp model X y 12 w = (r, w1)"
    by (cases "cvp model X y 12 w")
  show ?case
  proof (cases r)
    case (Inl e)
    with step show ?thesis by (simp add: consume_Suspended_Cons)
  next
    case (Inr p)
    with step Cons.IH [of w1] show ?thesis
      by (cases "consume cvp (Suspended X y ms) self w1")
         (auto simp: consume_Suspended_Cons)
  qed
qed

lemma consume_self: "fst (snd (consume cvp gen self w)) = self"
  by (cases gen)
     (simp_all add: consume_Created consume_Suspended_self consume_Closed split: sum.splits)

text \<open>
  C8. No method writes to the adapter: \<^verbatim>\<open>generate_subplots\<close>, the call of
  \<^verbatim>\<open>predict\<close>, every \<^verbatim>\<open>next\<close> on its generator and the exhaustion of the
  generator return the adapter object as they received it, the fields \<^verbatim>\<open>models\<close>
  and \<^verbatim>\<open>names\<close> included, whatever the collaborators return or raise.
\<close>

theorem operations_leave_adapter_unchanged:
  "fst (snd (generate_subplots subplots self g)) = self
   \<and> snd (predict X y self) = self
   \<and> fst (snd (next_py cvp gen self w)) = self
   \<and> fst (snd (consume cvp gen self w)) = self
   \<and> models (fst (snd (consume cvp (fst (predict X y self)) self w))) = models self
   \<and> names (fst (snd (consume cvp (fst (predict X y self)) self w))) = names self"
proof -
  have "fst (snd (generate_subplots subplots self g)) = self"
    by (simp add: generate_subplots_def split: sum.splits prod.splits)
  moreover have "snd (predict X y self) = self"
    by (simp add: predict_def)
  moreover have "fst (snd (next_py cvp gen self w)) = self"
    by (cases "next_py cvp gen self w") (auto dest: next_py_self)
  ultimately show ?thesis
    by (simp add: consume_self)
qed

subsection \<open>Repeated invocations\<close>

lemma consume_Suspended_deterministic:
  assumes "\<forall>model v1 v2. fst (cvp model X y 12 v1) = fst (cvp model X y 12 v2)"
  shows "fst (consume cvp (Suspended X y ms) self w1) =
         fst (consume cvp (Suspended X y ms) self w2)"
proof (induction ms arbitrary: w1 w2)
  case Nil
  show ?case by (simp add: consume_Suspended_Nil)
next
  case (Cons model ms)
  obtain r1 u1 where s1: "cvp model X y 12 w1 = (r1, u1)"
    by (cases "cvp model X y 12 w1")
  obtain r2 u2 where s2: "cvp model X y 12 w2 = (r2, u2)"
    by (cases "cvp model X y 12 w2")
  from assms s1 s2 have same: "r2 = r1"
    by (metis fst_conv)
  show ?case
  proof (cases r1)
    case (Inl e)
    with s1 s2 same have "cvp model X y 12 w1 = (Inl e, u1)" "cvp model X y 12 w2 = (Inl e, u2)"
      by simp_all
    then show ?thesis by (simp add: consume_Suspended_Cons)
  next
    case (Inr p)
    with s1 s2 same have "cvp model X y 12 w1 = (Inr p, u1)" "cvp model X y 12 w2 = (Inr p, u2)"
      by simp_all
    with Cons.IH [of u1 u2] show ?thesis
      by (cases "consume cvp (Suspended X y ms) self u1";
          cases "consume cvp (Suspended X y ms) self u2")
         (auto simp: consume_Suspended_Cons)
  qed
qed

lemma consume_deterministic:
  assumes "\<forall>model v1 v2. fst (cvp model X y 12 v1) = fst (cvp model X y 12 v2)"
  shows "fst (consume cvp (fst (predict X y self)) self w1) =
         fst (consume cvp (fst (predict X y self)) self w2)"
  using assms consume_Suspended_deterministic [of cvp X y]
  by (simp add: predict_def consume_Created split: sum.splits)

lemma traced_result:
  "fst (traced cvp model X y cv (calls, w)) = fst (cvp model X y cv w)"
  by (simp split: prod.splits)

lemma traced_deterministic:
  assumes "\<forall>model v1 v2. fst (cvp model X y 12 v1) = fst (cvp model X y 12 v2)"
  shows "\<forall>model v1 v2. fst (traced cvp model X y 12 v1) = fst (traced cvp model X y 12 v2)"
  using assms by (simp add: traced_result del: traced.simps)

lemma consume_traced_calls:
  assumes "\<forall>model v1 v2. fst (cvp model X y 12 v1) = fst (cvp model X y 12 v2)"
  shows "fst (snd (snd (consume (traced cvp) (Suspended X y ms) self ([], w1)))) =
         fst (snd (snd (consume (traced cvp) (Suspended X y ms) self ([], w2))))"
proof (induction ms arbitrary: w1 w2)
  case Nil
  show ?case by (simp add: consume_Suspended_Nil)
next
  case (Cons model ms)
  obtain r1 u1 where s1: "cvp model X y 12 w1 = (r1, u1)"
    by (cases "cvp model X y 12 w1")
  obtain r2 u2 where s2: "cvp model X y 12 w2 = (r2, u2)"
    by (cases "cvp model X y 12 w2")
  from assms s1 s2 have same: "r2 = r1"
    by (metis fst_conv)
  show ?case
  proof (cases r1)
    case (Inl e)
    with s1 s2 same have "cvp model X y 12 w1 = (Inl e, u1)" "cvp model X y 12 w2 = (Inl e, u2)"
      by simp_all
    then show ?thesis by (simp add: consume_Suspended_Cons)
  next
    case (Inr p)
    with s1 s2 same have "cvp model X y 12 w1 = (Inr p, u1)" "cvp model X y 12 w2 = (Inr p, u2)"
      by simp_all
    with Cons.IH [of u1 u2] show ?thesis
      by (cases "consume (traced cvp) (Suspended X y ms) self ([], u1)";
          cases "consume (traced cvp) (Suspended X y ms) self ([], u2)")
         (auto simp: consume_Suspended_Cons consume_traced [of cvp X y ms self "[(model, 12)]"])
  qed
qed

text \<open>
  C9. When the result of the routine for a model, \<open>X\<close>, \<open>y\<close> and twelve folds does
  not depend on the state of the world, two exhaustions of \<^verbatim>\<open>predict(X, y)\<close> give the
  caller the same sequence (the same predictions, ended the same way), whatever states
  of the world they start in. Nothing is kept from the first run: the second, started
  where the first ended, calls the routine again for the same models with the same fold
  count, so the record of calls after both runs is the record of the first run twice.
\<close>

theorem predict_twice_same_output:
  assumes "\<forall>model v1 v2. fst (cvp model X y 12 v1) = fst (cvp model X y 12 v2)"
  shows "fst (consume cvp (fst (predict X y self)) self w1) =
           fst (consume cvp (fst (predict X y self)) self w2)
         \<and> (case consume (traced cvp) (fst (predict X y self)) self ([], w) of
               (out1, self1, calls1, u1) \<Rightarrow>
                 (case consume (traced cvp) (fst (predict X y self1)) self1 (calls1, u1) of
                    (out2, self2, calls2, u2) \<Rightarrow> out2 = out1 \<and> calls2 = calls1 @ calls1))"
proof -
  let ?T = "traced cvp"
  obtain out1 self1 calls1 u1 where
    run1: "consume ?T (fst (predict X y self)) self ([], w) = (out1, self1, calls1, u1)"
    by (cases "consume ?T (fst (predict X y self)) self ([], w)") auto
  from consume_self [of ?T "fst (predict X y self)" self "([], w)"] run1
  have self1: "self1 = self" by simp
  obtain out2 self2 calls2 u2 where
    run2: "consume ?T (fst (predict X y self)) self (calls1, u1) = (out2, self2, calls2, u2)"
    by (cases "consume ?T (fst (predict X y self)) self (calls1, u1)") auto
  obtain out3 self3 calls3 u3 where
    run3: "consume ?T (fst (predict X y self)) self ([], u1) = (out3, self3, calls3, u3)"
    by (cases "consume ?T (fst (predict X y self)) self ([], u1)") auto
  have traced_det:
    "\<forall>model v1 v2. fst (?T model X y 12 v1) = fst (?T model X y 12 v2)"
    by (rule traced_deterministic [of cvp X y, OF assms])
  have out: "out3 = out1"
    using consume_deterministic [of ?T X y self "([], u1)" "([], w)"] traced_det run1 run3
    by simp
  have calls: "calls3 = calls1"
  proof (cases "iter_py (models self)")
    case (Inl e)
    with run1 run3 show ?thesis
      by (simp add: predict_def consume_Created)
  next
    case (Inr ms)
    with run1 run3 consume_traced_calls [of cvp X y ms self u1 w] assms show ?thesis
      by (simp add: predict_def consume_Created)
  qed
  have "out2 = out3 \<and> calls2 = calls1 @ calls3"
  proof (cases "iter_py (models self)")
    case (Inl e)
    with run2 run3 show ?thesis
      by (simp add: predict_def consume_Created)
  next
    case (Inr ms)
    with run2 run3 consume_traced [of cvp X y ms self calls1 u1] show ?thesis
      by (simp add: predict_def consume_Created)
  qed
  with out calls have "out2 = out1 \<and> calls2 = calls1 @ calls1" by simp
  with run1 run2 self1 consume_deterministic [of cvp X y self w1 w2] assms show ?thesis
    by simp
qed

theorem predict_twice_same_output_witness:
  "(\<forall>model v1 v2. fst (cv_stub model () () 12 v1) = fst (cv_stub model () () 12 v2))
   \<and> fst (consume cv_stub (fst (predict () () ridge_and_svr)) ridge_and_svr 0) =
       ([60, 36], None)
   \<and> fst (consume cv_stub (fst (predict () () ridge_and_svr)) ridge_and_svr 2) =
       ([60, 36], None)
   \<and> consume (traced cv_stub) (fst (predict () () ridge_and_svr)) ridge_and_svr ([], 0) =
       (([60, 36], None), ridge_and_svr, [(ridge, 12), (svr, 12)], 2)
   \<and> consume (traced cv_stub) (fst (predict () () ridge_and_svr)) ridge_and_svr
         ([(ridge, 12), (svr, 12)], 2) =
       (([60, 36], None), ridge_and_svr,
        [(ridge, 12), (svr, 12), (ridge, 12), (svr, 12)], 4)"
proof -
  have det: "\<forall>model v1 v2. fst (cv_stub model () () 12 v1) = fst (cv_stub model () () 12 v2)"
  proof (intro allI)
    fix model v1 v2
    show "fst (cv_stub model () () 12 v1) = fst (cv_stub model () () 12 v2)"
      by (cases model) simp_all
  qed
  with predict_twice_same_output [of cv_stub "()" "()" ridge_and_svr 0 2 0] show ?thesis
    by (simp add: predict_def consume_Created consume_Suspended_Cons consume_Suspended_Nil
          ridge_and_svr_def ridge_def svr_def)
qed

subsection \<open>Allocation of subplots\<close>

lemma generate_subplots_request:
  "len_py (models self) = Inr n \<Longrightarrow>
     generate_subplots subplots self g =
       (case subplots n True True g of
          (Inl e, g') \<Rightarrow> (Inl e, self, g')
        | (Inr (fig, axs), g') \<Rightarrow> (Inr axs, self, g'))"
  by (simp add: generate_subplots_def)

lemma generate_subplots_several:
  assumes "len_py (models self) = Inr n" and "2 \<le> n"
  shows "\<exists>axs. generate_subplots plt_subplots self g = (Inr (Array axs), self, Suc g)
           \<and> length axs = n
           \<and> (\<forall>i<n. axs ! i = \<lparr>fig_num = Suc g, row = i, shared_x = True, shared_y = True\<rparr>)"
  using assms by (simp add: generate_subplots_def plt_subplots_def Let_def)

lemma generate_subplots_no_models:
  "generate_subplots plt_subplots \<lparr>models = PyList [], names = PyList []\<rparr> g =
     (Inl ValueError, \<lparr>models = PyList [], names = PyList []\<rparr>, Suc g)"
  by (simp add: generate_subplots_def plt_subplots_def)

text \<open>
  C5. The adapter constructed from the single estimator \<^verbatim>\<open>Ridge\<close> holds one model.
  Its \<^verbatim>\<open>generate_subplots\<close> asks pyplot for one row, and what it returns is the axes
  object itself, not an array holding it.
\<close>

theorem generate_subplots_single_model:
  "init duck_isestimator estimator_name ridge [] = Inr ridge_alone
   \<and> len_py (models ridge_alone) = Inr 1
   \<and> generate_subplots plt_subplots ridge_alone 0 =
       (Inr (Scalar \<lparr>fig_num = 1, row = 0, shared_x = True, shared_y = True\<rparr>), ridge_alone, 1)"
  by (simp add: init_def generate_subplots_def plt_subplots_def ridge_alone_def ridge_def)

end
